theory Spec2Isabelle
  imports Main "HOL-Library.AList" "HOL-Library.Monad_Syntax"
begin

section \<open>JavaScript values\<close>

text \<open>
  The message handler of \<^verbatim>\<open>TeamBattleGame.tsx\<close> works on \<^verbatim>\<open>data = JSON.parse(event.data)\<close>,
  a value of type \<^verbatim>\<open>any\<close>.  It is modelled by the values JSON can denote, together with
  \<^verbatim>\<open>undefined\<close>, which a read of a missing property yields.  Numbers are the integers
  (identifiers, scores and counters in the interfaces of the source); an object is the
  association list of its own properties, looked up with \<^const>\<open>map_of\<close>.
\<close>

datatype jsval =
    JUndefined
  | JNull
  | JBool bool
  | JNum int
  | JStr string
  | JArr "jsval list"
  | JObj "(string \<times> jsval) list"

text \<open>\<^verbatim>\<open>!!v\<close>: the falsy values are undefined, null, false, 0 and the empty string.\<close>

fun truthy :: "jsval \<Rightarrow> bool" where
  "truthy JUndefined = False"
| "truthy JNull = False"
| "truthy (JBool b) = b"
| "truthy (JNum n) = (n \<noteq> 0)"
| "truthy (JStr s) = (s \<noteq> [])"
| "truthy (JArr xs) = True"
| "truthy (JObj kv) = True"

fun nullish :: "jsval \<Rightarrow> bool" where
  "nullish JUndefined = True"
| "nullish JNull = True"
| "nullish v = False"

fun scalar :: "jsval \<Rightarrow> bool" where
  "scalar (JArr xs) = False"
| "scalar (JObj kv) = False"
| "scalar v = True"

text \<open>
  \<^verbatim>\<open>a === b\<close>.  Scalars are compared by value.  Arrays and objects are compared by
  reference; the operands the source compares come from different places (two messages, a
  message and the authenticated user), so two compound operands are taken to be different
  references.  The one comparison that can meet a value with itself, the id of a team
  against the id of the player team, is thereby exact for scalar ids, which is what the
  \<^verbatim>\<open>Team\<close> interface declares.
\<close>

definition strict_eq :: "jsval \<Rightarrow> jsval \<Rightarrow> bool" where
  "strict_eq a b = (scalar a \<and> scalar b \<and> a = b)"

text \<open>\<^verbatim>\<open>a || b\<close> and \<^verbatim>\<open>a ?? b\<close>.\<close>

definition or_else :: "jsval \<Rightarrow> jsval \<Rightarrow> jsval" where
  "or_else a b = (if truthy a then a else b)"

definition coalesce :: "jsval \<Rightarrow> jsval \<Rightarrow> jsval" where
  "coalesce a b = (if nullish a then b else a)"

text \<open>Reading a property of an object that is held as its list of own properties.\<close>

definition obj_get :: "(string \<times> jsval) list \<Rightarrow> string \<Rightarrow> jsval" where
  "obj_get kv k = (case map_of kv k of Some v \<Rightarrow> v | None \<Rightarrow> JUndefined)"

text \<open>
  \<^verbatim>\<open>v?.k\<close>: undefined on undefined and null.  The property names the source reads are
  no properties of strings, numbers, booleans or arrays, so on those the read is undefined too.
\<close>

fun opt_chain :: "jsval \<Rightarrow> string \<Rightarrow> jsval" where
  "opt_chain (JObj kv) k = obj_get kv k"
| "opt_chain v k = JUndefined"

text \<open>\<^verbatim>\<open>v.k\<close>: a TypeError (\<^const>\<open>None\<close>) on undefined and null.\<close>

definition get_prop :: "jsval \<Rightarrow> string \<Rightarrow> jsval option" where
  "get_prop v k = (if nullish v then None else Some (opt_chain v k))"

text \<open>
  \<^verbatim>\<open>{...obj, k1: v1, ..., kn: vn}\<close>: the later property wins, a new key is appended.
\<close>

definition assign :: "(string \<times> jsval) list \<Rightarrow> (string \<times> jsval) list \<Rightarrow> (string \<times> jsval) list" where
  "assign fields obj = fold (\<lambda>(k, v). AList.update k v) fields obj"

subsection \<open>Property keys\<close>

definition digit :: "nat \<Rightarrow> char" where
  "digit d = ''0123456789'' ! d"

fun show_nat :: "nat \<Rightarrow> string" where
  "show_nat n = (if n < 10 then [digit n] else show_nat (n div 10) @ [digit (n mod 10)])"

definition show_int :: "int \<Rightarrow> string" where
  "show_int i = (if i < 0 then CHR ''-'' # show_nat (nat (- i)) else show_nat (nat i))"

fun join_comma :: "string list \<Rightarrow> string" where
  "join_comma [] = []"
| "join_comma [s] = s"
| "join_comma (s # t # ss) = s @ '','' @ join_comma (t # ss)"

text \<open>
  \<^verbatim>\<open>String(v)\<close>, as a computed property key \<^verbatim>\<open>obj[v]\<close> applies it.  An array is joined
  with commas, undefined and null elements giving the empty string.  An object from JSON
  gives \<^verbatim>\<open>[object Object]\<close>, unless it has an own property \<^verbatim>\<open>toString\<close>: that one is not
  callable, \<^verbatim>\<open>valueOf\<close> gives no primitive either, and the conversion throws a TypeError
  (\<^const>\<open>None\<close>).  The decimal form of a number is JavaScript's for magnitudes below
  \<open>10\<^sup>2\<^sup>1\<close>.
\<close>

fun to_key :: "jsval \<Rightarrow> string option" where
  "to_key JUndefined = Some ''undefined''"
| "to_key JNull = Some ''null''"
| "to_key (JBool b) = Some (if b then ''true'' else ''false'')"
| "to_key (JNum n) = Some (show_int n)"
| "to_key (JStr s) = Some s"
| "to_key (JArr xs) =
     map_option join_comma
       (those (map (\<lambda>x. if nullish x then Some [] else to_key x) xs))"
| "to_key (JObj kv) =
     (if ''toString'' \<in> set (map fst kv) then None else Some ''[object Object]'')"

text \<open>
  The own enumerable properties that \<^verbatim>\<open>{...v}\<close> copies: those of an object, the indices
  of an array or of a string, none of any other value.
\<close>

fun own_props :: "jsval \<Rightarrow> (string \<times> jsval) list" where
  "own_props (JObj kv) = kv"
| "own_props (JArr xs) = zip (map show_nat [0..<length xs]) xs"
| "own_props (JStr s) = zip (map show_nat [0..<length s]) (map (\<lambda>c. JStr [c]) s)"
| "own_props v = []"

subsection \<open>Array methods with callbacks that may throw\<close>

text \<open>
  \<^verbatim>\<open>xs.find(p)\<close>, \<^verbatim>\<open>xs.some(p)\<close> and \<^verbatim>\<open>xs.map(f)\<close> on the elements of an array, from
  left to right; \<^const>\<open>None\<close> when a callback throws.
\<close>

fun js_find :: "(jsval \<Rightarrow> bool option) \<Rightarrow> jsval list \<Rightarrow> jsval option" where
  "js_find p [] = Some JUndefined"
| "js_find p (x # xs) =
     (case p x of
        None \<Rightarrow> None
      | Some b \<Rightarrow> if b then Some x else js_find p xs)"

fun js_some :: "(jsval \<Rightarrow> bool option) \<Rightarrow> jsval list \<Rightarrow> bool option" where
  "js_some p [] = Some False"
| "js_some p (x # xs) =
     (case p x of
        None \<Rightarrow> None
      | Some b \<Rightarrow> if b then Some True else js_some p xs)"

fun js_map :: "(jsval \<Rightarrow> jsval option) \<Rightarrow> jsval list \<Rightarrow> jsval list option" where
  "js_map f [] = Some []"
| "js_map f (x # xs) =
     (case f x of
        None \<Rightarrow> None
      | Some y \<Rightarrow> (case js_map f xs of None \<Rightarrow> None | Some ys \<Rightarrow> Some (y # ys)))"

text \<open>
  \<^verbatim>\<open>v.find(p)\<close> and \<^verbatim>\<open>v?.find(p)\<close> on any value: only an array has the method, on
  every other value the call is a TypeError.
\<close>

fun call_find :: "(jsval \<Rightarrow> bool option) \<Rightarrow> jsval \<Rightarrow> jsval option" where
  "call_find p (JArr xs) = js_find p xs"
| "call_find p v = None"

definition opt_call_find :: "(jsval \<Rightarrow> bool option) \<Rightarrow> jsval \<Rightarrow> jsval option" where
  "opt_call_find p v = (if nullish v then Some JUndefined else call_find p v)"

fun call_some :: "(jsval \<Rightarrow> bool option) \<Rightarrow> jsval \<Rightarrow> bool option" where
  "call_some p (JArr xs) = js_some p xs"
| "call_some p v = None"

fun call_map :: "(jsval \<Rightarrow> jsval option) \<Rightarrow> jsval \<Rightarrow> jsval option" where
  "call_map f (JArr xs) = map_option JArr (js_map f xs)"
| "call_map f v = None"

section \<open>TeamBattleGame: the local view state\<close>

text \<open>
  The \<^verbatim>\<open>useState\<close> cells of the component.  \<open>gameState\<close> is a JavaScript object
  (\<^verbatim>\<open>game_state_update\<close> spreads whatever the server sends into it), held as the list of
  its properties.  A suggestion is the object \<^verbatim>\<open>{userId, username}\<close> the handler builds.
  The sound and voice switches, which no handler below touches, are left out.
\<close>

record suggestion =
  userId :: jsval
  username :: jsval

type_synonym SuggestionsByAnswerId = "(string \<times> suggestion list) list"

record view =
  gameState :: "(string \<times> jsval) list"
  selectedAnswer :: jsval
  hasSubmitted :: bool
  teamAnswer :: jsval
  memberAnswers :: "(string \<times> jsval) list"
  connected :: bool
  suggestions :: SuggestionsByAnswerId
  waitingForResults :: bool
  correctAnswerId :: jsval
  showRoundFeedback :: bool
  lastRoundCorrect :: "bool option"

definition init_view :: view where
  "init_view =
     \<lparr> gameState = [(''phase'', JStr ''waiting'')],
       selectedAnswer = JNull,
       hasSubmitted = False,
       teamAnswer = JNull,
       memberAnswers = [],
       connected = False,
       suggestions = [],
       waitingForResults = False,
       correctAnswerId = JNull,
       showRoundFeedback = False,
       lastRoundCorrect = None \<rparr>"

text \<open>The authenticated user of \<^verbatim>\<open>useAuth\<close>; the handler is only installed when there is one.\<close>

record auth_user =
  user_id :: jsval
  user_username :: jsval

text \<open>
  An inbound socket message: \<^verbatim>\<open>JSON.parse(event.data)\<close> either throws a SyntaxError or
  gives a value.
\<close>

datatype message = Unparsable | Parsed jsval

text \<open>
  What one call of \<^verbatim>\<open>handleMessage\<close> leads to.  \<open>Completed\<close>: the \<^verbatim>\<open>try\<close> block ran to
  its end.  \<open>Caught\<close>: it threw, the \<^verbatim>\<open>catch\<close> block logged the error with
  \<^verbatim>\<open>console.error\<close>; the view carries the setter calls made before the throw.
  \<open>Crashed\<close>: an updater function passed to a setter throws; React runs it while
  rendering, outside the \<^verbatim>\<open>try\<close> block, and the component has no error boundary.
\<close>

datatype result = Completed view | Caught view | Crashed

section \<open>TeamBattleGame: the message handler\<close>

text \<open>
  In the cases of the \<^verbatim>\<open>switch\<close>, \<^verbatim>\<open>data.type\<close> has been read, so \<^verbatim>\<open>data\<close> is neither
  undefined nor null and \<^verbatim>\<open>data.k\<close> is \<^term>\<open>opt_chain data k\<close>.
\<close>

text \<open>\<^verbatim>\<open>updateGameState\<close>: the updater of case \<^verbatim>\<open>game_state_update\<close>.\<close>

definition updateGameState :: "jsval \<Rightarrow> (string \<times> jsval) list \<Rightarrow> (string \<times> jsval) list" where
  "updateGameState data prev =
     assign (own_props (opt_chain data ''gameState'') @
             [(''playerTeam'', opt_chain data ''playerTeam''),
              (''opposingTeam'', opt_chain data ''opposingTeam'')]) prev"

text \<open>Case \<^verbatim>\<open>team_battle_question\<close>.\<close>

definition on_team_battle_question :: "jsval \<Rightarrow> view \<Rightarrow> view" where
  "on_team_battle_question data s =
     s\<lparr> gameState :=
          assign [(''phase'', JStr ''question''),
                  (''currentQuestion'', opt_chain data ''question''),
                  (''questionNumber'', opt_chain data ''questionNumber''),
                  (''totalQuestions'', opt_chain data ''totalQuestions''),
                  (''timeRemaining'', or_else (opt_chain data ''timeLimit'') (JNum 15))]
            (gameState s),
        selectedAnswer := JNull,
        hasSubmitted := False,
        teamAnswer := JNull,
        memberAnswers := [],
        suggestions := [],
        waitingForResults := False,
        correctAnswerId := JNull,
        lastRoundCorrect := None \<rparr>"

text \<open>
  Case \<^verbatim>\<open>team_answer_submitted\<close>.  The computed key \<^verbatim>\<open>[data.username]\<close> is evaluated
  inside the updater.
\<close>

definition on_team_answer_submitted :: "auth_user \<Rightarrow> jsval \<Rightarrow> view \<Rightarrow> result" where
  "on_team_answer_submitted user data s =
     (if \<not> strict_eq (opt_chain data ''userId'') (user_id user) then
        (case to_key (opt_chain data ''username'') of
           None \<Rightarrow> Crashed
         | Some k \<Rightarrow>
             Completed (s\<lparr> memberAnswers :=
               AList.update k (opt_chain data ''answerId'') (memberAnswers s) \<rparr>))
      else Completed s)"

text \<open>
  Case \<^verbatim>\<open>team_option_selected\<close>.  The loop over \<^verbatim>\<open>Object.keys(next)\<close> filters the user
  out of each list and deletes the lists that become empty.
\<close>

definition remove_step :: "jsval \<Rightarrow> string \<Rightarrow> SuggestionsByAnswerId \<Rightarrow> SuggestionsByAnswerId" where
  "remove_step uid answerId next =
     (case map_of next answerId of
        None \<Rightarrow> next
      | Some l \<Rightarrow>
          (let l' = filter (\<lambda>s. \<not> strict_eq (userId s) uid) l
           in if l' = [] then AList.delete answerId next else AList.update answerId l' next))"

definition remove_user :: "jsval \<Rightarrow> SuggestionsByAnswerId \<Rightarrow> SuggestionsByAnswerId" where
  "remove_user uid prev = fold (remove_step uid) (map fst prev) prev"

text \<open>
  \<^verbatim>\<open>next\<close> is an object literal, so a key it does not own is looked up in
  \<^verbatim>\<open>Object.prototype\<close>.  There \<^verbatim>\<open>next[key] || []\<close> finds a function (or the prototype
  itself), which \<^verbatim>\<open>[...list, s]\<close> cannot iterate: a TypeError.
\<close>

definition object_prototype_keys :: "string list" where
  "object_prototype_keys =
     [''constructor'', ''hasOwnProperty'', ''isPrototypeOf'', ''propertyIsEnumerable'',
      ''toLocaleString'', ''toString'', ''valueOf'', ''__proto__'',
      ''__defineGetter__'', ''__defineSetter__'', ''__lookupGetter__'', ''__lookupSetter__'']"

definition add_suggestion ::
    "string \<Rightarrow> suggestion \<Rightarrow> SuggestionsByAnswerId \<Rightarrow> SuggestionsByAnswerId option" where
  "add_suggestion key sg next =
     (case map_of next key of
        Some list \<Rightarrow> Some (AList.update key (list @ [sg]) next)
      | None \<Rightarrow>
          if key \<in> set object_prototype_keys then None
          else Some (AList.update key [sg] next))"

definition suggest :: "jsval \<Rightarrow> SuggestionsByAnswerId \<Rightarrow> SuggestionsByAnswerId option" where
  "suggest data prev =
     (let next = remove_user (opt_chain data ''userId'') prev
      in do {
        key \<leftarrow> to_key (opt_chain data ''answerId'');
        add_suggestion key
          \<lparr> userId = opt_chain data ''userId'', username = opt_chain data ''username'' \<rparr> next
      })"

definition on_team_option_selected :: "jsval \<Rightarrow> view \<Rightarrow> result" where
  "on_team_option_selected data s =
     (if \<not> truthy (opt_chain data ''teamId'') \<or> \<not> truthy (opt_chain data ''answerId'')
         \<or> \<not> truthy (opt_chain data ''userId'')
      then Completed s
      else (case suggest data (suggestions s) of
              None \<Rightarrow> Crashed
            | Some next \<Rightarrow> Completed (s\<lparr> suggestions := next \<rparr>)))"

text \<open>Case \<^verbatim>\<open>team_answer_finalized\<close>: \<^verbatim>\<open>data.finalAnswer.answerId\<close> is read first.\<close>

definition on_team_answer_finalized :: "jsval \<Rightarrow> view \<Rightarrow> result" where
  "on_team_answer_finalized data s =
     (case get_prop (opt_chain data ''finalAnswer'') ''answerId'' of
        None \<Rightarrow> Caught s
      | Some a \<Rightarrow>
          Completed (s\<lparr> teamAnswer := a, hasSubmitted := True, waitingForResults := True \<rparr>))"

text \<open>
  The two callbacks that look a team up:
  \<^verbatim>\<open>team => team.members.some(member => member.userId === user?.id)\<close> and
  \<^verbatim>\<open>team => team.id !== playerTeam?.id\<close>.
\<close>

definition team_has_user :: "jsval \<Rightarrow> jsval \<Rightarrow> bool option" where
  "team_has_user uid team =
     do {
       ms \<leftarrow> get_prop team ''members'';
       call_some (\<lambda>member. do { u \<leftarrow> get_prop member ''userId''; Some (strict_eq u uid) }) ms
     }"

definition other_team :: "jsval \<Rightarrow> jsval \<Rightarrow> bool option" where
  "other_team playerTeam team =
     do { i \<leftarrow> get_prop team ''id''; Some (\<not> strict_eq i (opt_chain playerTeam ''id'')) }"

text \<open>
  Case \<^verbatim>\<open>team_battle_question_results\<close>.  \<^verbatim>\<open>gameStateRef.current\<close> is the game state of
  the last render, that is the one before this message.
\<close>

definition resolvedPlayerTeamId :: "auth_user \<Rightarrow> (string \<times> jsval) list \<Rightarrow> jsval option" where
  "resolvedPlayerTeamId user gs =
     (let a = opt_chain (obj_get gs ''playerTeam'') ''id''
      in if truthy a then Some a
         else do {
           t \<leftarrow> opt_call_find (team_has_user (user_id user)) (obj_get gs ''teams'');
           Some (opt_chain t ''id'')
         })"

definition playerTeamResult :: "jsval \<Rightarrow> jsval \<Rightarrow> jsval option" where
  "playerTeamResult data resolved =
     opt_call_find (\<lambda>r. do { t \<leftarrow> get_prop r ''teamId''; Some (strict_eq t resolved) })
       (opt_chain data ''teamResults'')"

definition with_leaderboard_score :: "jsval \<Rightarrow> jsval \<Rightarrow> jsval option" where
  "with_leaderboard_score leaderboard team =
     do {
       lb \<leftarrow> call_find (\<lambda>entry. do {
                a \<leftarrow> get_prop entry ''teamId'';
                b \<leftarrow> get_prop team ''id'';
                Some (strict_eq a b) }) leaderboard;
       Some (if truthy lb
             then JObj (assign [(''score'', opt_chain lb ''score'')] (own_props team))
             else team)
     }"

definition results_updater ::
    "auth_user \<Rightarrow> jsval \<Rightarrow> (string \<times> jsval) list \<Rightarrow> (string \<times> jsval) list option" where
  "results_updater user data prev =
     do {
       updatedTeams \<leftarrow>
         (if truthy (obj_get prev ''teams'') \<and> truthy (opt_chain data ''leaderboard'')
          then call_map (with_leaderboard_score (opt_chain data ''leaderboard''))
                 (obj_get prev ''teams'')
          else Some (obj_get prev ''teams''));
       playerTeam \<leftarrow> opt_call_find (team_has_user (user_id user)) updatedTeams;
       opposingTeam \<leftarrow> opt_call_find (other_team playerTeam) updatedTeams;
       Some (assign [(''teams'', updatedTeams),
                     (''playerTeam'', or_else playerTeam (obj_get prev ''playerTeam'')),
                     (''opposingTeam'', or_else opposingTeam (obj_get prev ''opposingTeam''))]
               prev)
     }"

definition on_team_battle_question_results :: "auth_user \<Rightarrow> jsval \<Rightarrow> view \<Rightarrow> result" where
  "on_team_battle_question_results user data s =
     (let s1 = s\<lparr> waitingForResults := False \<rparr>;
          correctId = or_else (opt_chain (opt_chain data ''correctAnswer'') ''id'') JNull;
          s2 = s1\<lparr> correctAnswerId := correctId \<rparr>
      in case resolvedPlayerTeamId user (gameState s) of
           None \<Rightarrow> Caught s2
         | Some resolved \<Rightarrow>
             (case playerTeamResult data resolved of
                None \<Rightarrow> Caught s2
              | Some r \<Rightarrow>
                  (let roundCorrect = truthy (opt_chain r ''correct'');
                       s3 = s2\<lparr> lastRoundCorrect := Some roundCorrect \<rparr>
                   in case results_updater user data (gameState s) of
                        None \<Rightarrow> Crashed
                      | Some gs \<Rightarrow> Completed (s3\<lparr> gameState := gs \<rparr>))))"

text \<open>
  Cases \<^verbatim>\<open>team_battle_finished\<close> and \<^verbatim>\<open>team_battle_ended\<close>.  After the two setter
  calls the toast text \<^verbatim>\<open>`${data.winner.name} wins!`\<close> is built, which converts the name
  to a string.
\<close>

definition finished_view :: "jsval \<Rightarrow> view \<Rightarrow> view" where
  "finished_view data s =
     s\<lparr> gameState :=
          assign [(''phase'', JStr ''finished''),
                  (''teams'', opt_chain data ''finalScores''),
                  (''finalScore'',
                     coalesce (opt_chain (opt_chain data ''yourTeam'') ''score'')
                       (coalesce (obj_get (gameState s) ''finalScore'') (JNum 0))),
                  (''correct'',
                     coalesce (opt_chain (opt_chain data ''yourTeam'') ''correctAnswers'')
                       (coalesce (obj_get (gameState s) ''correct'') (JNum 0))),
                  (''incorrect'',
                     coalesce (opt_chain (opt_chain data ''yourTeam'') ''incorrectAnswers'')
                       (coalesce (obj_get (gameState s) ''incorrect'') (JNum 0)))]
            (gameState s),
        showRoundFeedback := False \<rparr>"

definition on_team_battle_finished :: "jsval \<Rightarrow> view \<Rightarrow> result" where
  "on_team_battle_finished data s =
     (if truthy (opt_chain data ''winner'') then
        (case to_key (opt_chain (opt_chain data ''winner'') ''name'') of
           None \<Rightarrow> Caught (finished_view data s)
         | Some text \<Rightarrow> Completed (finished_view data s))
      else Completed (finished_view data s))"

text \<open>\<^verbatim>\<open>updateTeamsData\<close>: both lookups run before the setter is called.\<close>

definition updateTeamsData ::
    "auth_user \<Rightarrow> jsval \<Rightarrow> (string \<times> jsval) list \<Rightarrow> (string \<times> jsval) list option" where
  "updateTeamsData user teams prev =
     do {
       playerTeam \<leftarrow> call_find (team_has_user (user_id user)) teams;
       opposingTeam \<leftarrow> call_find (other_team playerTeam) teams;
       Some (assign [(''teams'', teams),
                     (''playerTeam'', playerTeam),
                     (''opposingTeam'', opposingTeam)] prev)
     }"

definition on_teams_updated :: "auth_user \<Rightarrow> jsval \<Rightarrow> view \<Rightarrow> result" where
  "on_teams_updated user data s =
     (if truthy (opt_chain data ''teams'') then
        (case updateTeamsData user (opt_chain data ''teams'') (gameState s) of
           None \<Rightarrow> Caught s
         | Some gs \<Rightarrow> Completed (s\<lparr> gameState := gs \<rparr>))
      else Completed s)"

text \<open>
  \<^verbatim>\<open>handleMessage\<close>.  The toasts and \<^verbatim>\<open>console.log\<close> calls of the cases change no state
  and are left out, apart from the one toast whose text can throw; a case that does nothing
  else completes with the view as it was.
\<close>

definition handleMessage :: "auth_user \<Rightarrow> message \<Rightarrow> view \<Rightarrow> result" where
  "handleMessage user msg s =
     (case msg of
        Unparsable \<Rightarrow> Caught s
      | Parsed data \<Rightarrow>
          (case get_prop data ''type'' of
             None \<Rightarrow> Caught s
           | Some t \<Rightarrow>
               if t = JStr ''connection_established'' then Completed (s\<lparr> connected := True \<rparr>)
               else if t = JStr ''authenticated'' then Completed s
               else if t = JStr ''game_state_update'' then
                 Completed (s\<lparr> gameState := updateGameState data (gameState s) \<rparr>)
               else if t = JStr ''team_battle_started'' then
                 Completed (s\<lparr> gameState := assign [(''phase'', JStr ''playing'')] (gameState s) \<rparr>)
               else if t = JStr ''team_battle_question'' then
                 Completed (on_team_battle_question data s)
               else if t = JStr ''team_answer_submitted'' then
                 on_team_answer_submitted user data s
               else if t = JStr ''team_option_selected'' then
                 on_team_option_selected data s
               else if t = JStr ''team_answer_finalized'' then
                 on_team_answer_finalized data s
               else if t = JStr ''team_battle_question_results'' then
                 on_team_battle_question_results user data s
               else if t = JStr ''team_battle_round_complete'' then Completed s
               else if t = JStr ''team_battle_finished'' \<or> t = JStr ''team_battle_ended'' then
                 on_team_battle_finished data s
               else if t = JStr ''teams_updated'' \<or> t = JStr ''team_update'' then
                 on_teams_updated user data s
               else if t = JStr ''error'' then Completed s
               else Completed s))"

section \<open>TeamBattleGame: user actions, effects and rendering\<close>

text \<open>
  \<^verbatim>\<open>isTeamCaptain\<close>, \<^verbatim>\<open>handleCaptainSubmit\<close> and \<^verbatim>\<open>handleMemberSelect\<close> return the events
  they pass to \<^verbatim>\<open>sendGameEvent\<close>, and the view.
\<close>

definition isTeamCaptain :: "auth_user \<Rightarrow> view \<Rightarrow> bool" where
  "isTeamCaptain user s =
     strict_eq (opt_chain (obj_get (gameState s) ''playerTeam'') ''captainId'') (user_id user)"

definition handleCaptainSubmit :: "auth_user \<Rightarrow> string \<Rightarrow> view \<Rightarrow> jsval list \<times> view" where
  "handleCaptainSubmit user answerId s =
     (if \<not> truthy (obj_get (gameState s) ''currentQuestion'')
         \<or> \<not> truthy (obj_get (gameState s) ''playerTeam'') then ([], s)
      else if \<not> isTeamCaptain user s then ([], s)
      else ([JObj [(''type'', JStr ''finalize_team_answer''),
                   (''teamId'', opt_chain (obj_get (gameState s) ''playerTeam'') ''id''),
                   (''finalAnswer'',
                      JObj [(''questionId'',
                               opt_chain (obj_get (gameState s) ''currentQuestion'') ''id''),
                            (''answerId'', JStr answerId)])]], s))"

definition handleMemberSelect :: "auth_user \<Rightarrow> string \<Rightarrow> view \<Rightarrow> jsval list \<times> view" where
  "handleMemberSelect user answerId s =
     (if \<not> truthy (obj_get (gameState s) ''currentQuestion'')
         \<or> \<not> truthy (obj_get (gameState s) ''playerTeam'') then ([], s)
      else ([JObj [(''type'', JStr ''team_option_selected''),
                   (''teamId'', opt_chain (obj_get (gameState s) ''playerTeam'') ''id''),
                   (''questionId'', opt_chain (obj_get (gameState s) ''currentQuestion'') ''id''),
                   (''answerId'', JStr answerId),
                   (''userId'', user_id user),
                   (''username'', user_username user)]],
            s\<lparr> selectedAnswer := JStr answerId \<rparr>))"

text \<open>The \<^verbatim>\<open>onClose\<close> callback of the feedback modal.\<close>

definition closeFeedback :: "view \<Rightarrow> view" where
  "closeFeedback s =
     s\<lparr> showRoundFeedback := False, lastRoundCorrect := None, correctAnswerId := JNull \<rparr>"

text \<open>
  The effect with dependency \<^verbatim>\<open>[lastRoundCorrect]\<close>: it runs after a render in which
  \<open>lastRoundCorrect\<close> differs from the render before.
\<close>

definition after_render :: "view \<Rightarrow> view \<Rightarrow> view" where
  "after_render old new =
     (if lastRoundCorrect new \<noteq> lastRoundCorrect old \<and> lastRoundCorrect new \<noteq> None
      then new\<lparr> showRoundFeedback := True \<rparr> else new)"





text \<open>
  The view as a state machine: the local state after each message or user action.  A
  message is handled, the updaters it queued are run and the effect follows; an updater
  that throws ends the run (\<^const>\<open>None\<close>).  Of the render that follows a change of
  state only the feedback overlay above is modelled.  The phase renderers read
  \<^verbatim>\<open>question.answers\<close> and \<^verbatim>\<open>gameState.teams\<close> and can throw on a state that
  \<open>step\<close> returns, so \<^const>\<open>Some\<close> says what the state is, not that the view
  renders it; the runs that \<open>run\<close> lets through include every run of the component.
\<close>

datatype action =
    Message message
  | CloseFeedback
  | MemberSelect string
  | CaptainSubmit string

fun step :: "auth_user \<Rightarrow> action \<Rightarrow> view \<Rightarrow> view option" where
  "step user (Message m) s =
     (case handleMessage user m s of
        Completed s' \<Rightarrow> Some (after_render s s')
      | Caught s' \<Rightarrow> Some (after_render s s')
      | Crashed \<Rightarrow> None)"
| "step user CloseFeedback s = Some (after_render s (closeFeedback s))"
| "step user (MemberSelect a) s = Some (after_render s (snd (handleMemberSelect user a s)))"
| "step user (CaptainSubmit a) s = Some (after_render s (snd (handleCaptainSubmit user a s)))"

fun run :: "auth_user \<Rightarrow> action list \<Rightarrow> view \<Rightarrow> view option" where
  "run user [] s = Some s"
| "run user (a # as) s =
     (case step user a s of
        None \<Rightarrow> None
      | Some s' \<Rightarrow> run user as s')"

section \<open>The interfaces of the source, as JSON\<close>

text \<open>
  The interfaces \<^verbatim>\<open>TeamMember\<close> and \<^verbatim>\<open>Team\<close>, and the JSON a server that keeps to them
  sends.  The sample rosters below are written in them.
\<close>

datatype role = Captain | Member

datatype team_status = Forming | Ready | Playing | Finished

record TeamMember =
  m_userId :: int
  m_username :: string
  m_role :: role
  m_joinedAt :: string

record Team =
  t_id :: string
  t_name :: string
  t_captainId :: int
  t_gameSessionId :: string
  t_members :: "TeamMember list"
  t_score :: int
  t_correctAnswers :: int
  t_incorrectAnswers :: int
  t_status :: team_status

definition member_json :: "TeamMember \<Rightarrow> jsval" where
  "member_json m =
     JObj [(''userId'', JNum (m_userId m)),
           (''username'', JStr (m_username m)),
           (''role'', JStr (if m_role m = Captain then ''captain'' else ''member'')),
           (''joinedAt'', JStr (m_joinedAt m))]"

definition status_json :: "team_status \<Rightarrow> jsval" where
  "status_json st =
     JStr (case st of Forming \<Rightarrow> ''forming'' | Ready \<Rightarrow> ''ready''
           | Playing \<Rightarrow> ''playing'' | Finished \<Rightarrow> ''finished'')"

definition team_json :: "Team \<Rightarrow> jsval" where
  "team_json t =
     JObj [(''id'', JStr (t_id t)),
           (''name'', JStr (t_name t)),
           (''captainId'', JNum (t_captainId t)),
           (''gameSessionId'', JStr (t_gameSessionId t)),
           (''members'', JArr (map member_json (t_members t))),
           (''score'', JNum (t_score t)),
           (''correctAnswers'', JNum (t_correctAnswers t)),
           (''incorrectAnswers'', JNum (t_incorrectAnswers t)),
           (''status'', status_json (t_status t))]"

text \<open>
  What the handler needs of a team in a payload: its \<^verbatim>\<open>members\<close> are a list without nulls
  and its \<^verbatim>\<open>id\<close> is a scalar.  Other properties, and their order, are free.
\<close>

definition team_members :: "jsval \<Rightarrow> jsval list" where
  "team_members t = (case opt_chain t ''members'' of JArr ms \<Rightarrow> ms | _ \<Rightarrow> [])"

definition is_team :: "jsval \<Rightarrow> bool" where
  "is_team t =
     ((case opt_chain t ''members'' of
         JArr ms \<Rightarrow> list_all (\<lambda>m. \<not> nullish m) ms
       | _ \<Rightarrow> False)
      \<and> scalar (opt_chain t ''id''))"

definition contains_user :: "jsval \<Rightarrow> jsval \<Rightarrow> bool" where
  "contains_user uid t = (\<exists>m\<in>set (team_members t). opt_chain m ''userId'' = uid)"



section \<open>Reading the suggestion map\<close>

text \<open>
  \<open>answers_with u m\<close> lists the answer ids under which the map \<open>m\<close> holds a suggestion of
  the member \<open>u\<close>.  \<open>clean\<close> is the effect of the removal loop in one pass.
\<close>

definition suggests :: "jsval \<Rightarrow> suggestion list \<Rightarrow> bool" where
  "suggests u l = (\<exists>s\<in>set l. userId s = u)"

definition answers_with :: "jsval \<Rightarrow> SuggestionsByAnswerId \<Rightarrow> string list" where
  "answers_with u m = map fst (filter (\<lambda>(k, l). suggests u l) m)"

definition one_answer :: "jsval \<Rightarrow> SuggestionsByAnswerId \<Rightarrow> bool" where
  "one_answer u m = (distinct (map fst m) \<and> length (answers_with u m) \<le> 1)"

definition without :: "jsval \<Rightarrow> suggestion list \<Rightarrow> suggestion list" where
  "without uid l = filter (\<lambda>s. \<not> strict_eq (userId s) uid) l"

definition clean :: "jsval \<Rightarrow> SuggestionsByAnswerId \<Rightarrow> SuggestionsByAnswerId" where
  "clean uid m = filter (\<lambda>(k, l). l \<noteq> []) (map (\<lambda>(k, l). (k, without uid l)) m)"

section \<open>TeamDisplay\<close>

record TeamDisplayMember =
  member_userId :: int
  member_username :: string
  member_role :: role

record TeamDisplayTeam =
  team_id :: string
  team_name :: string
  captainId :: int
  members :: "TeamDisplayMember list"

text \<open>
  The props.  \<open>onReady\<close> says whether a callback is passed; the optional props are
  \<^const>\<open>None\<close> when they are left out.
\<close>

record TeamDisplayProps =
  team :: TeamDisplayTeam
  currentUserId :: "int option"
  onReady :: bool
  title :: "string option"
  isUserTeam :: "bool option"
  isReady :: "bool option"

text \<open>What the component renders: each conditional element of the JSX is a field.\<close>

record member_row =
  row_name :: string
  row_crown :: bool
  row_label :: string

record TeamDisplayView =
  title_line :: "string option"
  heading :: string
  your_team_badge :: bool
  ready_badge :: bool
  ready_button :: bool
  rows :: "member_row list"

definition isCaptain :: "TeamDisplayProps \<Rightarrow> bool" where
  "isCaptain p =
     (case currentUserId p of
        None \<Rightarrow> False
      | Some u \<Rightarrow> if u \<noteq> 0 then captainId (team p) = u else False)"

definition canReady :: "TeamDisplayProps \<Rightarrow> bool" where
  "canReady p = (onReady p \<and> isUserTeam p = Some True \<and> isCaptain p)"

definition render_member :: "TeamDisplayMember \<Rightarrow> member_row" where
  "render_member m =
     \<lparr> row_name = member_username m,
       row_crown = (member_role m = Captain),
       row_label = (if member_role m = Captain then ''Captain'' else ''Member'') \<rparr>"

definition TeamDisplay :: "TeamDisplayProps \<Rightarrow> TeamDisplayView" where
  "TeamDisplay p =
     \<lparr> title_line = (case title p of None \<Rightarrow> None | Some t \<Rightarrow> if t \<noteq> [] then Some t else None),
       heading = team_name (team p),
       your_team_badge = (isUserTeam p = Some True),
       ready_badge = (isReady p = Some True),
       ready_button = canReady p,
       rows = map render_member (members (team p)) \<rparr>"

section \<open>Sample inputs\<close>

definition sample_user :: auth_user where
  "sample_user = \<lparr> user_id = JNum 7, user_username = JStr ''bob'' \<rparr>"

definition team_lions :: Team where
  "team_lions =
     \<lparr> t_id = ''t1'', t_name = ''Lions'', t_captainId = 7, t_gameSessionId = ''g1'',
       t_members =
         [\<lparr> m_userId = 7, m_username = ''bob'', m_role = Captain, m_joinedAt = ''2025-01-01'' \<rparr>,
          \<lparr> m_userId = 8, m_username = ''amy'', m_role = Member, m_joinedAt = ''2025-01-01'' \<rparr>],
       t_score = 0, t_correctAnswers = 0, t_incorrectAnswers = 0, t_status = Playing \<rparr>"

definition team_tigers :: Team where
  "team_tigers =
     \<lparr> t_id = ''t2'', t_name = ''Tigers'', t_captainId = 9, t_gameSessionId = ''g1'',
       t_members =
         [\<lparr> m_userId = 9, m_username = ''cat'', m_role = Captain, m_joinedAt = ''2025-01-01'' \<rparr>],
       t_score = 0, t_correctAnswers = 0, t_incorrectAnswers = 0, t_status = Playing \<rparr>"

definition payload :: "string \<Rightarrow> (string \<times> jsval) list \<Rightarrow> jsval" where
  "payload ty kvs = JObj ((''type'', JStr ty) # kvs)"

definition ev_teams :: "Team list \<Rightarrow> jsval" where
  "ev_teams ts = payload ''teams_updated'' [(''teams'', JArr (map team_json ts))]"

definition ev_question :: jsval where
  "ev_question =
     payload ''team_battle_question''
       [(''question'',
           JObj [(''id'', JStr ''q1''), (''text'', JStr ''Who built the ark?''),
                 (''answers'',
                    JArr [JObj [(''id'', JStr ''a1''), (''text'', JStr ''Moses'')],
                          JObj [(''id'', JStr ''a2''), (''text'', JStr ''Noah'')]]),
                 (''category'', JStr ''history''), (''difficulty'', JStr ''easy'')]),
        (''questionNumber'', JNum 2), (''totalQuestions'', JNum 5), (''timeLimit'', JNum 15)]"

definition ev_select :: "jsval \<Rightarrow> jsval \<Rightarrow> jsval" where
  "ev_select answer uid =
     payload ''team_option_selected''
       [(''teamId'', JStr ''t1''), (''answerId'', answer), (''userId'', uid),
        (''username'', JStr ''bob'')]"

definition ev_finalized :: jsval where
  "ev_finalized = payload ''team_answer_finalized'' [(''finalAnswer'', JObj [(''answerId'', JStr ''a2'')])]"

definition ev_results :: "jsval \<Rightarrow> jsval \<Rightarrow> jsval" where
  "ev_results correct_id teamResults =
     payload ''team_battle_question_results''
       [(''correctAnswer'', JObj [(''id'', correct_id)]), (''teamResults'', teamResults)]"


definition team_results :: jsval where
  "team_results =
     JArr [JObj [(''teamId'', JStr ''t1''), (''correct'', JBool True)],
           JObj [(''teamId'', JStr ''t2''), (''correct'', JBool False)]]"


text \<open>A view in the middle of a round.\<close>

definition view_playing :: view where
  "view_playing =
     init_view\<lparr> gameState :=
       [(''phase'', JStr ''question''),
        (''currentQuestion'', opt_chain ev_question ''question''),
        (''playerTeam'', team_json team_lions)] \<rparr>"

text \<open>The view after the rosters, a question and the team's final answer have arrived.\<close>

definition view_answered :: view where
  "view_answered =
     \<lparr> gameState =
         [(''phase'', JStr ''question''),
          (''teams'', JArr (map team_json [team_lions, team_tigers])),
          (''playerTeam'', team_json team_lions),
          (''opposingTeam'', team_json team_tigers),
          (''currentQuestion'', opt_chain ev_question ''question''),
          (''questionNumber'', JNum 2),
          (''totalQuestions'', JNum 5),
          (''timeRemaining'', JNum 15)],
       selectedAnswer = JNull,
       hasSubmitted = True,
       teamAnswer = JStr ''a2'',
       memberAnswers = [],
       connected = False,
       suggestions = [],
       waitingForResults = True,
       correctAnswerId = JNull,
       showRoundFeedback = False,
       lastRoundCorrect = None \<rparr>"



section \<open>Lemmas on the handler\<close>

lemma update_append_notin:
  "k \<notin> fst ` set xs \<Longrightarrow> AList.update k v (xs @ ys) = xs @ AList.update k v ys"
  by (induction xs) auto

lemma delete_notin: "k \<notin> fst ` set xs \<Longrightarrow> AList.delete k xs = xs"
  by (induction xs) (auto simp: AList.delete_eq)

lemma map_of_append_notin:
  "k \<notin> fst ` set xs \<Longrightarrow> map_of (xs @ ys) k = map_of ys k"
  by (induction xs) auto

lemma remove_step_head:
  assumes "distinct (map fst (xs @ (k, l) # ys))"
  shows "remove_step uid k (xs @ (k, l) # ys) =
           (if without uid l = [] then xs @ ys else xs @ (k, without uid l) # ys)"
proof -
  have nx: "k \<notin> fst ` set xs" and ny: "k \<notin> fst ` set ys"
    using assms by auto
  have look: "map_of (xs @ (k, l) # ys) k = Some l"
    using map_of_append_notin [OF nx, of "(k, l) # ys"] by simp
  have del: "AList.delete k (xs @ (k, l) # ys) = xs @ ys"
    using nx ny by (simp add: AList.delete_eq) (metis delete_notin AList.delete_eq)
  have upd: "AList.update k v (xs @ (k, l) # ys) = xs @ (k, v) # ys" for v
    using nx by (simp add: update_append_notin)
  show ?thesis
    unfolding remove_step_def look option.case Let_def del upd without_def by simp
qed

lemma fold_remove_step:
  "distinct (map fst (xs @ ys)) \<Longrightarrow>
   fold (remove_step uid) (map fst ys) (xs @ ys) = xs @ clean uid ys"
proof (induction ys arbitrary: xs)
  case Nil
  then show ?case by (simp add: clean_def)
next
  case (Cons a ys)
  obtain k l where a: "a = (k, l)" by (cases a)
  have d: "distinct (map fst (xs @ (k, l) # ys))" using Cons.prems a by simp
  show ?case
  proof (cases "without uid l = []")
    case True
    have "distinct (map fst (xs @ ys))" using d by auto
    then have "fold (remove_step uid) (map fst ys) (xs @ ys) = xs @ clean uid ys"
      by (rule Cons.IH)
    then show ?thesis
      using True by (simp add: a remove_step_head [OF d] clean_def)
  next
    case False
    have "distinct (map fst ((xs @ [(k, without uid l)]) @ ys))" using d by auto
    then have "fold (remove_step uid) (map fst ys) ((xs @ [(k, without uid l)]) @ ys)
                 = (xs @ [(k, without uid l)]) @ clean uid ys"
      by (rule Cons.IH)
    then show ?thesis
      using False by (simp add: a remove_step_head [OF d] clean_def)
  qed
qed

lemma remove_user_clean: "distinct (map fst m) \<Longrightarrow> remove_user uid m = clean uid m"
  using fold_remove_step [of "[]" m uid] by (simp add: remove_user_def)

lemma keys_clean_subset: "fst ` set (clean uid m) \<subseteq> fst ` set m"
  by (auto simp: clean_def) force

lemma clean_Cons:
  "clean uid ((k, l) # m) =
     (if without uid l = [] then clean uid m else (k, without uid l) # clean uid m)"
  by (simp add: clean_def)

lemma distinct_clean: "distinct (map fst m) \<Longrightarrow> distinct (map fst (clean uid m))"
proof (induction m)
  case Nil
  then show ?case by (simp add: clean_def)
next
  case (Cons a m)
  obtain k l where a: "a = (k, l)" by (cases a)
  have "k \<notin> fst ` set (clean uid m)"
    using Cons.prems a keys_clean_subset [of uid m] by auto
  then show ?case
    using Cons a by (simp add: clean_Cons)
qed

lemma suggests_without:
  "scalar u \<Longrightarrow> \<not> suggests u (without u l)"
  by (auto simp: suggests_def without_def strict_eq_def)

lemma suggests_without_mono: "suggests u (without uid l) \<Longrightarrow> suggests u l"
  by (auto simp: suggests_def without_def)

lemma answers_clean_self: "scalar u \<Longrightarrow> answers_with u (clean u m) = []"
  by (induction m) (auto simp: answers_with_def clean_def suggests_without)

lemma answers_clean_le:
  "length (answers_with u (clean uid m)) \<le> length (answers_with u m)"
  by (induction m) (auto simp: answers_with_def clean_def dest: suggests_without_mono)

lemma answers_update_same:
  "map_of m k = Some l \<Longrightarrow> suggests u l' = suggests u l \<Longrightarrow>
   answers_with u (AList.update k l' m) = answers_with u m"
  by (induction m) (auto simp: answers_with_def)

lemma answers_update_new:
  "map_of m k = None \<Longrightarrow> \<not> suggests u l' \<Longrightarrow>
   answers_with u (AList.update k l' m) = answers_with u m"
  by (induction m) (auto simp: answers_with_def)

lemma answers_update_first:
  "answers_with u m = [] \<Longrightarrow> suggests u l' \<Longrightarrow> answers_with u (AList.update k l' m) = [k]"
  by (induction m) (auto simp: answers_with_def split: if_splits)


lemma add_suggestion_distinct:
  "add_suggestion key sg m = Some m' \<Longrightarrow> distinct (map fst m) \<Longrightarrow> distinct (map fst m')"
  by (auto simp: add_suggestion_def distinct_update split: option.splits if_splits)

lemma suggests_snoc: "suggests u (l @ [sg]) = (suggests u l \<or> userId sg = u)"
  by (auto simp: suggests_def)

lemma add_suggestion_other:
  assumes "add_suggestion key sg m = Some m'" and "userId sg \<noteq> u"
  shows "answers_with u m' = answers_with u m"
proof (cases "map_of m key")
  case None
  then have "m' = AList.update key [sg] m"
    using assms(1) by (simp add: add_suggestion_def split: if_splits)
  moreover have "\<not> suggests u [sg]"
    using assms(2) by (simp add: suggests_def)
  ultimately show ?thesis
    using None by (simp add: answers_update_new)
next
  case (Some l)
  then have "m' = AList.update key (l @ [sg]) m"
    using assms(1) by (simp add: add_suggestion_def)
  moreover have "suggests u (l @ [sg]) = suggests u l"
    using assms(2) by (simp add: suggests_snoc)
  ultimately show ?thesis
    using Some by (simp add: answers_update_same)
qed

lemma add_suggestion_self:
  assumes "add_suggestion key sg m = Some m'" and "userId sg = u" and "answers_with u m = []"
  shows "answers_with u m' = [key]"
proof -
  obtain l' where "m' = AList.update key l' m" and "suggests u l'"
    using assms(1,2)
    by (auto simp: add_suggestion_def suggests_snoc suggests_def split: option.splits if_splits)
  then show ?thesis
    using assms(3) by (simp add: answers_update_first)
qed

lemma suggest_exact:
  assumes "scalar u" and "distinct (map fst prev)" and "suggest data prev = Some next"
      and "opt_chain data ''userId'' = u"
  shows "\<exists>key. to_key (opt_chain data ''answerId'') = Some key \<and> answers_with u next = [key]"
proof -
  obtain key where k: "to_key (opt_chain data ''answerId'') = Some key"
    and a: "add_suggestion key \<lparr> userId = u, username = opt_chain data ''username'' \<rparr>
              (clean u prev) = Some next"
    using assms(3,4) by (auto simp: suggest_def remove_user_clean [OF assms(2)] split: bind_splits)
  have "answers_with u next = [key]"
    using add_suggestion_self [OF a] answers_clean_self [OF assms(1)] by simp
  then show ?thesis using k by simp
qed

lemma suggest_one_answer:
  assumes "scalar u" and "one_answer u prev" and "suggest data prev = Some next"
  shows "one_answer u next"
proof -
  have d: "distinct (map fst prev)" using assms(2) by (simp add: one_answer_def)
  obtain key where
    a: "add_suggestion key \<lparr> userId = opt_chain data ''userId'', username = opt_chain data ''username'' \<rparr>
              (clean (opt_chain data ''userId'') prev) = Some next"
    using assms(3) by (auto simp: suggest_def remove_user_clean [OF d] split: bind_splits)
  have dn: "distinct (map fst next)"
    using add_suggestion_distinct [OF a] distinct_clean [OF d] by simp
  show ?thesis
  proof (cases "opt_chain data ''userId'' = u")
    case True
    then have "\<exists>key. answers_with u next = [key]"
      using suggest_exact [OF assms(1) d assms(3)] by auto
    then show ?thesis using dn by (auto simp: one_answer_def)
  next
    case False
    then have "answers_with u next = answers_with u (clean (opt_chain data ''userId'') prev)"
      using add_suggestion_other [OF a] by simp
    then have "length (answers_with u next) \<le> length (answers_with u prev)"
      by (simp add: answers_clean_le)
    then show ?thesis using dn assms(2) by (simp add: one_answer_def)
  qed
qed

lemma submitted_suggestions:
  "on_team_answer_submitted user data s = Completed s' \<or> on_team_answer_submitted user data s = Caught s'
     \<Longrightarrow> suggestions s' = suggestions s"
  by (auto simp: on_team_answer_submitted_def split: if_splits option.splits)

lemma selected_suggestions:
  "on_team_option_selected data s = Completed s' \<or> on_team_option_selected data s = Caught s'
     \<Longrightarrow> suggestions s' = suggestions s \<or> suggest data (suggestions s) = Some (suggestions s')"
  by (auto simp: on_team_option_selected_def split: if_splits option.splits)

lemma finalized_suggestions:
  "on_team_answer_finalized data s = Completed s' \<or> on_team_answer_finalized data s = Caught s'
     \<Longrightarrow> suggestions s' = suggestions s"
  by (auto simp: on_team_answer_finalized_def split: option.splits)

lemma finished_suggestions:
  "on_team_battle_finished data s = Completed s' \<or> on_team_battle_finished data s = Caught s'
     \<Longrightarrow> suggestions s' = suggestions s"
  by (auto simp: on_team_battle_finished_def finished_view_def split: if_splits option.splits)

lemma results_suggestions:
  "on_team_battle_question_results user data s = Completed s'
     \<or> on_team_battle_question_results user data s = Caught s'
     \<Longrightarrow> suggestions s' = suggestions s"
  by (auto simp: on_team_battle_question_results_def Let_def split: option.splits)

lemma teams_updated_suggestions:
  "on_teams_updated user data s = Completed s' \<or> on_teams_updated user data s = Caught s'
     \<Longrightarrow> suggestions s' = suggestions s"
  by (auto simp: on_teams_updated_def split: if_splits option.splits)

lemma handleMessage_cases:
  assumes "handleMessage user msg s = r"
  shows "r = Caught s
     \<or> (\<exists>data. msg = Parsed data \<and>
          (r = on_team_answer_submitted user data s
           \<or> r = on_team_option_selected data s
           \<or> r = on_team_answer_finalized data s
           \<or> (get_prop data ''type'' = Some (JStr ''team_battle_question_results'')
               \<and> r = on_team_battle_question_results user data s)
           \<or> r = on_teams_updated user data s
           \<or> r = Completed (on_team_battle_question data s)
           \<or> (get_prop data ''type'' \<in> {Some (JStr ''team_battle_finished''),
                                           Some (JStr ''team_battle_ended'')}
               \<and> r = on_team_battle_finished data s)
           \<or> r = Completed s
           \<or> r = Completed (s\<lparr> connected := True \<rparr>)
           \<or> r = Completed (s\<lparr> gameState := updateGameState data (gameState s) \<rparr>)
           \<or> r = Completed (s\<lparr> gameState := assign [(''phase'', JStr ''playing'')] (gameState s) \<rparr>)))"
proof (cases msg)
  case Unparsable
  then show ?thesis using assms by (simp add: handleMessage_def)
next
  case (Parsed data)
  show ?thesis
  proof (cases "get_prop data ''type''")
    case None
    then show ?thesis using assms Parsed by (simp add: handleMessage_def)
  next
    case (Some t)
    show ?thesis
      using assms unfolding Parsed handleMessage_def message.case Some option.case
      by (simp add: Some split: if_splits)
  qed
qed

lemma handleMessage_suggestions:
  assumes "handleMessage user msg s = Completed s' \<or> handleMessage user msg s = Caught s'"
  shows "suggestions s' = suggestions s \<or> suggestions s' = []
         \<or> (\<exists>data. msg = Parsed data \<and> suggest data (suggestions s) = Some (suggestions s'))"
proof -
  obtain r where r: "handleMessage user msg s = r" and rs: "r = Completed s' \<or> r = Caught s'"
    using assms by auto
  from handleMessage_cases [OF r] show ?thesis
  proof (elim disjE exE conjE)
    assume "r = Caught s"
    then show ?thesis using rs by auto
  next
    fix data assume "msg = Parsed data" "r = on_team_answer_submitted user data s"
    then show ?thesis using rs submitted_suggestions [of user data s s'] by auto
  next
    fix data assume "msg = Parsed data" "r = on_team_option_selected data s"
    then show ?thesis using rs selected_suggestions [of data s s'] by auto
  next
    fix data assume "msg = Parsed data" "r = on_team_answer_finalized data s"
    then show ?thesis using rs finalized_suggestions [of data s s'] by auto
  next
    fix data assume "msg = Parsed data" "r = on_team_battle_question_results user data s"
    then show ?thesis using rs results_suggestions [of user data s s'] by auto
  next
    fix data assume "msg = Parsed data" "r = on_teams_updated user data s"
    then show ?thesis using rs teams_updated_suggestions [of user data s s'] by auto
  next
    fix data assume "r = Completed (on_team_battle_question data s)"
    then show ?thesis using rs by (auto simp: on_team_battle_question_def)
  next
    fix data assume "r = on_team_battle_finished data s"
    then show ?thesis using rs finished_suggestions [of data s s'] by auto
  next
    assume "r = Completed s"
    then show ?thesis using rs by auto
  next
    assume "r = Completed (s\<lparr> connected := True \<rparr>)"
    then show ?thesis using rs by auto
  next
    fix data assume "r = Completed (s\<lparr> gameState := updateGameState data (gameState s) \<rparr>)"
    then show ?thesis using rs by auto
  next
    assume "r = Completed (s\<lparr> gameState := assign [(''phase'', JStr ''playing'')] (gameState s) \<rparr>)"
    then show ?thesis using rs by auto
  qed
qed

lemma one_answer_Nil: "one_answer u []"
  by (simp add: one_answer_def answers_with_def)

lemma handleMessage_one_answer:
  assumes "scalar u"
      and "handleMessage user m s = Completed s1 \<or> handleMessage user m s = Caught s1"
      and "one_answer u (suggestions s)"
  shows "one_answer u (suggestions s1)"
proof -
  from handleMessage_suggestions [OF assms(2)]
  consider "suggestions s1 = suggestions s" | "suggestions s1 = []"
    | data where "suggest data (suggestions s) = Some (suggestions s1)"
    by blast
  then show ?thesis
  proof cases
    case 1
    then show ?thesis using assms(3) by simp
  next
    case 2
    then show ?thesis by (simp add: one_answer_Nil)
  next
    case 3
    then show ?thesis by (rule suggest_one_answer [OF assms(1,3)])
  qed
qed

lemma after_render_suggestions: "suggestions (after_render s s1) = suggestions s1"
  by (simp add: after_render_def)

lemma step_one_answer:
  assumes "scalar u" and "step user a s = Some s'" and "one_answer u (suggestions s)"
  shows "one_answer u (suggestions s')"
proof (cases a)
  case (Message m)
  then obtain s1 where h: "handleMessage user m s = Completed s1 \<or> handleMessage user m s = Caught s1"
    and s': "s' = after_render s s1"
    using assms(2) by (auto split: result.splits)
  show ?thesis
    unfolding s' after_render_suggestions
    by (rule handleMessage_one_answer [OF assms(1) h assms(3)])
next
  case CloseFeedback
  then have "suggestions s' = suggestions s"
    using assms(2) by (auto simp: after_render_suggestions closeFeedback_def)
  then show ?thesis using assms(3) by simp
next
  case (MemberSelect x)
  then have "suggestions s' = suggestions s"
    using assms(2) by (auto simp: after_render_suggestions handleMemberSelect_def)
  then show ?thesis using assms(3) by simp
next
  case (CaptainSubmit x)
  then have "suggestions s' = suggestions s"
    using assms(2) by (auto simp: after_render_suggestions handleCaptainSubmit_def)
  then show ?thesis using assms(3) by simp
qed

lemma run_one_answer:
  "scalar u \<Longrightarrow> run user acts s = Some s' \<Longrightarrow> one_answer u (suggestions s)
     \<Longrightarrow> one_answer u (suggestions s')"
proof (induction acts arbitrary: s)
  case Nil
  then show ?case by simp
next
  case (Cons a acts)
  from Cons.prems(2) obtain s1 where 1: "step user a s = Some s1" and 2: "run user acts s1 = Some s'"
    by (auto split: option.splits)
  have "one_answer u (suggestions s1)"
    by (rule step_one_answer [OF Cons.prems(1) 1 Cons.prems(3)])
  then show ?case
    by (rule Cons.IH [OF Cons.prems(1) 2])
qed


lemma obj_get_update: "obj_get (AList.update k v kv) k' = (if k' = k then v else obj_get kv k')"
  by (simp add: obj_get_def update_conv')








lemma js_some_total:
  "\<forall>x\<in>set xs. p x = Some (q x) \<Longrightarrow> js_some p xs = Some (\<exists>x\<in>set xs. q x)"
  by (induction xs) simp_all

lemma js_find_total:
  "\<forall>x\<in>set xs. p x = Some (q x) \<Longrightarrow>
   js_find p xs = Some (case find q xs of None \<Rightarrow> JUndefined | Some x \<Rightarrow> x)"
  by (induction xs) simp_all


lemma is_team_members:
  assumes "is_team t"
  shows "get_prop t ''members'' = Some (JArr (team_members t))"
    and "\<forall>m\<in>set (team_members t). \<not> nullish m"
    and "\<not> nullish t"
    and "scalar (opt_chain t ''id'')"
proof -
  obtain ms where ms: "opt_chain t ''members'' = JArr ms" and nn: "list_all (\<lambda>m. \<not> nullish m) ms"
    using assms by (auto simp: is_team_def split: jsval.splits)
  have nt: "\<not> nullish t"
    using ms by (cases t) simp_all
  show "\<not> nullish t" by (rule nt)
  show "get_prop t ''members'' = Some (JArr (team_members t))"
    using ms nt by (simp add: get_prop_def team_members_def)
  show "\<forall>m\<in>set (team_members t). \<not> nullish m"
    using ms nn by (simp add: team_members_def list_all_iff)
  show "scalar (opt_chain t ''id'')"
    using assms by (simp add: is_team_def)
qed

lemma team_has_user_team:
  assumes "is_team t" and "scalar uid"
  shows "team_has_user uid t = Some (contains_user uid t)"
proof -
  have "\<forall>m\<in>set (team_members t).
          do { u \<leftarrow> get_prop m ''userId''; Some (strict_eq u uid) }
            = Some (opt_chain m ''userId'' = uid)"
    using is_team_members(2) [OF assms(1)] assms(2)
    by (auto simp: get_prop_def strict_eq_def)
  then have "js_some (\<lambda>m. do { u \<leftarrow> get_prop m ''userId''; Some (strict_eq u uid) })
               (team_members t) = Some (contains_user uid t)"
    unfolding contains_user_def by (rule js_some_total)
  then show ?thesis
    by (simp add: team_has_user_def is_team_members(1) [OF assms(1)])
qed

lemma other_team_team:
  assumes "is_team t" and "is_team p"
  shows "other_team p t = Some (opt_chain t ''id'' \<noteq> opt_chain p ''id'')"
  using is_team_members(3,4) [OF assms(1)] is_team_members(4) [OF assms(2)]
  by (simp add: other_team_def get_prop_def strict_eq_def)

lemma distinct_map_other:
  assumes "distinct (map f xs)" and "2 \<le> length xs" and "p \<in> set xs"
  shows "\<exists>x\<in>set xs. f x \<noteq> f p"
proof (rule ccontr)
  assume "\<not> (\<exists>x\<in>set xs. f x \<noteq> f p)"
  then have "f ` set xs \<subseteq> {f p}" by auto
  then have "card (f ` set xs) \<le> 1"
    by (metis card.empty card.insert card_mono empty_iff finite.emptyI finite.insertI
          One_nat_def)
  moreover have "card (f ` set xs) = length xs"
    using distinct_card [OF assms(1)] by simp
  ultimately show False using assms(2) by simp
qed

























section \<open>Properties of the suggestion map\<close>

text \<open>
  C1.  Take any member id \<open>u\<close> (a number, a string or another scalar; the interface
  declares a number).  After any sequence of inbound messages and user actions that the
  view survives, the suggestion map has pairwise different answer ids and holds a suggestion
  of \<open>u\<close> under at most one of them.  And whatever the map was before, a handled
  \<^verbatim>\<open>team_option_selected\<close> event of \<open>u\<close> leaves \<open>u\<close> under the selected answer only: the
  earlier suggestion is removed from every list before the new one is added.
\<close>

theorem one_suggestion_per_member:
  assumes "scalar u"
  shows "(run user acts init_view = Some v \<longrightarrow>
            distinct (map fst (suggestions v)) \<and> length (answers_with u (suggestions v)) \<le> 1)
       \<and> (distinct (map fst (suggestions s))
            \<and> get_prop data ''type'' = Some (JStr ''team_option_selected'')
            \<and> truthy (opt_chain data ''teamId'') \<and> truthy (opt_chain data ''answerId'')
            \<and> truthy (opt_chain data ''userId'') \<and> opt_chain data ''userId'' = u
            \<and> handleMessage user (Parsed data) s = Completed s' \<longrightarrow>
          (\<exists>key. to_key (opt_chain data ''answerId'') = Some key
                 \<and> answers_with u (suggestions s') = [key]))"
proof (intro conjI impI)
  assume r: "run user acts init_view = Some v"
  have "one_answer u (suggestions init_view)"
    by (simp add: init_view_def one_answer_Nil)
  then have "one_answer u (suggestions v)"
    by (rule run_one_answer [OF assms r])
  then show "distinct (map fst (suggestions v))" and "length (answers_with u (suggestions v)) \<le> 1"
    by (simp_all add: one_answer_def)
next
  assume a: "distinct (map fst (suggestions s))
            \<and> get_prop data ''type'' = Some (JStr ''team_option_selected'')
            \<and> truthy (opt_chain data ''teamId'') \<and> truthy (opt_chain data ''answerId'')
            \<and> truthy (opt_chain data ''userId'') \<and> opt_chain data ''userId'' = u
            \<and> handleMessage user (Parsed data) s = Completed s'"
  then have "on_team_option_selected data s = Completed s'"
    by (clarsimp simp: handleMessage_def)
  then have "suggest data (suggestions s) = Some (suggestions s')"
    using a by (auto simp: on_team_option_selected_def split: option.splits)
  then show "\<exists>key. to_key (opt_chain data ''answerId'') = Some key
                 \<and> answers_with u (suggestions s') = [key]"
    using a suggest_exact [OF assms] by blast
qed

theorem one_suggestion_per_member_witness:
  "scalar (JNum 7)
   \<and> run sample_user
        [Message (Parsed (ev_select (JStr ''a1'') (JNum 7))),
         Message (Parsed (ev_select (JStr ''a2'') (JNum 8))),
         Message (Parsed (ev_select (JStr ''a2'') (JNum 7)))] init_view
      = Some (init_view\<lparr> suggestions :=
                [(''a2'', [\<lparr> userId = JNum 8, username = JStr ''bob'' \<rparr>,
                           \<lparr> userId = JNum 7, username = JStr ''bob'' \<rparr>])] \<rparr>)
   \<and> length (answers_with (JNum 7)
        [(''a2'', [\<lparr> userId = JNum 8, username = JStr ''bob'' \<rparr>,
                   \<lparr> userId = JNum 7, username = JStr ''bob'' \<rparr>])]) \<le> 1
   \<and> handleMessage sample_user (Parsed (ev_select (JStr ''a2'') (JNum 7)))
        (init_view\<lparr> suggestions := [(''a1'', [\<lparr> userId = JNum 7, username = JStr ''bob'' \<rparr>])] \<rparr>)
      = Completed (init_view\<lparr> suggestions :=
                     [(''a2'', [\<lparr> userId = JNum 7, username = JStr ''bob'' \<rparr>])] \<rparr>)
   \<and> answers_with (JNum 7) [(''a2'', [\<lparr> userId = JNum 7, username = JStr ''bob'' \<rparr>])] = [''a2'']"
proof -
  have sc: "scalar (JNum 7)" by simp
  have r: "run sample_user
        [Message (Parsed (ev_select (JStr ''a1'') (JNum 7))),
         Message (Parsed (ev_select (JStr ''a2'') (JNum 8))),
         Message (Parsed (ev_select (JStr ''a2'') (JNum 7)))] init_view
      = Some (init_view\<lparr> suggestions :=
                [(''a2'', [\<lparr> userId = JNum 8, username = JStr ''bob'' \<rparr>,
                           \<lparr> userId = JNum 7, username = JStr ''bob'' \<rparr>])] \<rparr>)"
    by code_simp
  have h: "handleMessage sample_user (Parsed (ev_select (JStr ''a2'') (JNum 7)))
        (init_view\<lparr> suggestions := [(''a1'', [\<lparr> userId = JNum 7, username = JStr ''bob'' \<rparr>])] \<rparr>)
      = Completed (init_view\<lparr> suggestions :=
                     [(''a2'', [\<lparr> userId = JNum 7, username = JStr ''bob'' \<rparr>])] \<rparr>)"
    by code_simp
  have p: "get_prop (ev_select (JStr ''a2'') (JNum 7)) ''type'' = Some (JStr ''team_option_selected'')
     \<and> truthy (opt_chain (ev_select (JStr ''a2'') (JNum 7)) ''teamId'')
     \<and> truthy (opt_chain (ev_select (JStr ''a2'') (JNum 7)) ''answerId'')
     \<and> truthy (opt_chain (ev_select (JStr ''a2'') (JNum 7)) ''userId'')
     \<and> opt_chain (ev_select (JStr ''a2'') (JNum 7)) ''userId'' = JNum 7
     \<and> to_key (opt_chain (ev_select (JStr ''a2'') (JNum 7)) ''answerId'') = Some ''a2''"
    by code_simp
  show ?thesis
    using one_suggestion_per_member [OF sc, of sample_user
        "[Message (Parsed (ev_select (JStr ''a1'') (JNum 7))),
          Message (Parsed (ev_select (JStr ''a2'') (JNum 8))),
          Message (Parsed (ev_select (JStr ''a2'') (JNum 7)))]"
        "init_view\<lparr> suggestions :=
                [(''a2'', [\<lparr> userId = JNum 8, username = JStr ''bob'' \<rparr>,
                           \<lparr> userId = JNum 7, username = JStr ''bob'' \<rparr>])] \<rparr>"
        "init_view\<lparr> suggestions := [(''a1'', [\<lparr> userId = JNum 7, username = JStr ''bob'' \<rparr>])] \<rparr>"
        "ev_select (JStr ''a2'') (JNum 7)"
        "init_view\<lparr> suggestions := [(''a2'', [\<lparr> userId = JNum 7, username = JStr ''bob'' \<rparr>])] \<rparr>"]
      sc r h p
    by simp
qed

section \<open>Properties of the message handler\<close>

text \<open>
  C5.  Whatever the phase and the local state before, a \<^verbatim>\<open>team_battle_question\<close> event is
  handled to the end and leaves the phase \<^verbatim>\<open>question\<close>, with \<open>selectedAnswer\<close>,
  \<open>teamAnswer\<close>, \<open>correctAnswerId\<close> and \<open>lastRoundCorrect\<close> null, \<open>hasSubmitted\<close> and
  \<open>waitingForResults\<close> false, and \<open>memberAnswers\<close> and \<open>suggestions\<close> empty.
\<close>

theorem question_resets_round_state:
  assumes "get_prop data ''type'' = Some (JStr ''team_battle_question'')"
  shows "\<exists>s'. handleMessage user (Parsed data) s = Completed s'
           \<and> obj_get (gameState s') ''phase'' = JStr ''question''
           \<and> selectedAnswer s' = JNull \<and> teamAnswer s' = JNull
           \<and> correctAnswerId s' = JNull \<and> lastRoundCorrect s' = None
           \<and> \<not> hasSubmitted s' \<and> \<not> waitingForResults s'
           \<and> memberAnswers s' = [] \<and> suggestions s' = []"
  using assms
  by (simp add: handleMessage_def on_team_battle_question_def assign_def obj_get_update)

theorem question_resets_round_state_witness:
  "get_prop ev_question ''type'' = Some (JStr ''team_battle_question'')
   \<and> (\<exists>s'. handleMessage sample_user (Parsed ev_question) view_answered = Completed s'
           \<and> obj_get (gameState s') ''phase'' = JStr ''question''
           \<and> selectedAnswer s' = JNull \<and> teamAnswer s' = JNull
           \<and> correctAnswerId s' = JNull \<and> lastRoundCorrect s' = None
           \<and> \<not> hasSubmitted s' \<and> \<not> waitingForResults s'
           \<and> memberAnswers s' = [] \<and> suggestions s' = [])"
proof -
  have h: "get_prop ev_question ''type'' = Some (JStr ''team_battle_question'')"
    by code_simp
  show ?thesis
    using h question_resets_round_state [OF h, of sample_user view_answered] by simp
qed

text \<open>
  C7.  A \<^verbatim>\<open>team_answer_finalized\<close> event whose \<^verbatim>\<open>finalAnswer\<close> is present sets
  \<open>teamAnswer\<close> to \<^verbatim>\<open>finalAnswer.answerId\<close>, \<open>hasSubmitted\<close> to true and
  \<open>waitingForResults\<close> to true; the event
  \<^verbatim>\<open>{type:'team_answer_finalized', finalAnswer:{answerId:'a2'}}\<close> gives \<open>teamAnswer = 'a2'\<close>.
\<close>

theorem finalized_locks_question:
  assumes "get_prop data ''type'' = Some (JStr ''team_answer_finalized'')"
      and "get_prop (opt_chain data ''finalAnswer'') ''answerId'' = Some a"
  shows "handleMessage user (Parsed data) s =
           Completed (s\<lparr> teamAnswer := a, hasSubmitted := True, waitingForResults := True \<rparr>)"
  using assms
  by (simp add: handleMessage_def on_team_answer_finalized_def)

theorem finalized_locks_question_witness:
  "ev_finalized = JObj [(''type'', JStr ''team_answer_finalized''),
                        (''finalAnswer'', JObj [(''answerId'', JStr ''a2'')])]
   \<and> handleMessage sample_user (Parsed ev_finalized) init_view =
        Completed (init_view\<lparr> teamAnswer := JStr ''a2'', hasSubmitted := True,
                     waitingForResults := True \<rparr>)"
proof -
  have e: "ev_finalized = JObj [(''type'', JStr ''team_answer_finalized''),
                        (''finalAnswer'', JObj [(''answerId'', JStr ''a2'')])]"
    by (simp add: ev_finalized_def payload_def)
  have h1: "get_prop ev_finalized ''type'' = Some (JStr ''team_answer_finalized'')"
    by code_simp
  have h2: "get_prop (opt_chain ev_finalized ''finalAnswer'') ''answerId'' = Some (JStr ''a2'')"
    by code_simp
  show ?thesis
    using e finalized_locks_question [OF h1 h2, of sample_user init_view]
    by simp
qed

text \<open>
  C10.  A \<^verbatim>\<open>team_option_selected\<close> event whose \<^verbatim>\<open>teamId\<close>, \<^verbatim>\<open>answerId\<close> or \<^verbatim>\<open>userId\<close>
  is missing or falsy (a \<^verbatim>\<open>userId\<close> 0, an empty \<^verbatim>\<open>answerId\<close>) is ignored: the suggestion
  map, and the rest of the view, stay as they were.
\<close>

theorem falsy_option_selected_ignored:
  assumes "get_prop data ''type'' = Some (JStr ''team_option_selected'')"
      and "\<not> truthy (opt_chain data ''teamId'') \<or> \<not> truthy (opt_chain data ''answerId'')
           \<or> \<not> truthy (opt_chain data ''userId'')"
  shows "handleMessage user (Parsed data) s = Completed s
       \<and> step user (Message (Parsed data)) s = Some s"
  using assms
  by (auto simp add: handleMessage_def on_team_option_selected_def after_render_def)

theorem falsy_option_selected_ignored_witness:
  "\<not> truthy (opt_chain (ev_select (JStr ''a1'') (JNum 0)) ''userId'')
   \<and> handleMessage sample_user (Parsed (ev_select (JStr ''a1'') (JNum 0)))
        (init_view\<lparr> suggestions := [(''a1'', [\<lparr> userId = JNum 7, username = JStr ''bob'' \<rparr>])] \<rparr>)
      = Completed
        (init_view\<lparr> suggestions := [(''a1'', [\<lparr> userId = JNum 7, username = JStr ''bob'' \<rparr>])] \<rparr>)"
proof -
  have h1: "get_prop (ev_select (JStr ''a1'') (JNum 0)) ''type'' = Some (JStr ''team_option_selected'')"
    by code_simp
  have h2: "\<not> truthy (opt_chain (ev_select (JStr ''a1'') (JNum 0)) ''userId'')"
    by code_simp
  have h3: "\<not> truthy (opt_chain (ev_select (JStr ''a1'') (JNum 0)) ''teamId'')
      \<or> \<not> truthy (opt_chain (ev_select (JStr ''a1'') (JNum 0)) ''answerId'')
      \<or> \<not> truthy (opt_chain (ev_select (JStr ''a1'') (JNum 0)) ''userId'')"
    using h2 by simp
  show ?thesis
    using h2 falsy_option_selected_ignored [OF h1 h3, of sample_user
      "init_view\<lparr> suggestions := [(''a1'', [\<lparr> userId = JNum 7, username = JStr ''bob'' \<rparr>])] \<rparr>"]
    by simp
qed

text \<open>
  C2, as the code has it.  When a \<^verbatim>\<open>team_battle_question_results\<close> event has been
  handled (to the end, or up to an error that was caught), \<open>correctAnswerId\<close> is the
  \<^verbatim>\<open>id\<close> of the event's \<^verbatim>\<open>correctAnswer\<close> if that id is truthy, and null otherwise: when
  \<^verbatim>\<open>correctAnswer\<close> or its id is missing, and also when the id is null, false, 0 or the
  empty string.
\<close>

theorem results_set_correct_answer_id:
  assumes "get_prop data ''type'' = Some (JStr ''team_battle_question_results'')"
      and "handleMessage user (Parsed data) s = Completed s'
           \<or> handleMessage user (Parsed data) s = Caught s'"
  shows "correctAnswerId s' =
           (if truthy (opt_chain (opt_chain data ''correctAnswer'') ''id'')
            then opt_chain (opt_chain data ''correctAnswer'') ''id'' else JNull)"
  using assms
  by (auto simp: handleMessage_def on_team_battle_question_results_def Let_def or_else_def
      split: option.splits)

theorem results_set_correct_answer_id_witness:
  "handleMessage sample_user (Parsed (ev_results (JStr ''a2'') team_results)) view_answered =
     Completed (view_answered\<lparr> waitingForResults := False, correctAnswerId := JStr ''a2'',
                  lastRoundCorrect := Some True \<rparr>)
   \<and> opt_chain (opt_chain (ev_results (JStr ''a2'') team_results) ''correctAnswer'') ''id''
       = JStr ''a2''"
proof -
  have h1: "get_prop (ev_results (JStr ''a2'') team_results) ''type''
      = Some (JStr ''team_battle_question_results'')"
    by code_simp
  have h2: "handleMessage sample_user (Parsed (ev_results (JStr ''a2'') team_results)) view_answered =
     Completed (view_answered\<lparr> waitingForResults := False, correctAnswerId := JStr ''a2'',
                  lastRoundCorrect := Some True \<rparr>)"
    by code_simp
  have h3: "opt_chain (opt_chain (ev_results (JStr ''a2'') team_results) ''correctAnswer'') ''id''
       = JStr ''a2''"
    by code_simp
  show ?thesis
    using h2 h3 results_set_correct_answer_id [OF h1 disjI1 [OF h2]] by simp
qed

text \<open>
  C2 as it is stated fails: the server supplies the id \<^verbatim>\<open>""\<close>, and \<open>correctAnswerId\<close>
  is null after the event, not that id.
\<close>

theorem results_falsy_id_counterexample:
  "opt_chain (opt_chain (ev_results (JStr []) team_results) ''correctAnswer'') ''id'' = JStr []
   \<and> handleMessage sample_user (Parsed (ev_results (JStr []) team_results)) view_answered =
       Completed (view_answered\<lparr> waitingForResults := False, correctAnswerId := JNull,
                    lastRoundCorrect := Some True \<rparr>)"
  by code_simp

text \<open>
  C6.  Let a \<^verbatim>\<open>teams_updated\<close> or \<^verbatim>\<open>team_update\<close> event carry a list of at least two
  teams (objects with a members list and an id, the ids pairwise different), one of which
  has the current user's id among its members.  Then the event is handled to the end,
  \<open>playerTeam\<close> is a team of the list that contains the user (the first one), and
  \<open>opposingTeam\<close> is a team of the list whose id is not that of the player team.
\<close>

theorem teams_updated_resolves_teams:
  assumes "get_prop data ''type'' = Some (JStr ''teams_updated'')
           \<or> get_prop data ''type'' = Some (JStr ''team_update'')"
      and "opt_chain data ''teams'' = JArr ts"
      and "2 \<le> length ts"
      and "\<forall>t\<in>set ts. is_team t"
      and "distinct (map (\<lambda>t. opt_chain t ''id'') ts)"
      and "scalar (user_id user)"
      and "\<exists>t\<in>set ts. contains_user (user_id user) t"
  shows "\<exists>s' p q. handleMessage user (Parsed data) s = Completed s'
           \<and> obj_get (gameState s') ''playerTeam'' = p
           \<and> find (contains_user (user_id user)) ts = Some p
           \<and> p \<in> set ts \<and> contains_user (user_id user) p
           \<and> obj_get (gameState s') ''opposingTeam'' = q
           \<and> q \<in> set ts \<and> opt_chain q ''id'' \<noteq> opt_chain p ''id''"
proof -
  obtain p where fp: "find (contains_user (user_id user)) ts = Some p"
    using assms(7) by (cases "find (contains_user (user_id user)) ts") (auto simp: find_None_iff)
  have p: "p \<in> set ts" "contains_user (user_id user) p"
    using fp by (auto simp: find_Some_iff)
  have tp: "is_team p" using p(1) assms(4) by simp
  have "\<exists>t\<in>set ts. opt_chain t ''id'' \<noteq> opt_chain p ''id''"
    by (rule distinct_map_other [OF assms(5) assms(3) p(1)])
  then obtain q where fq: "find (\<lambda>t. opt_chain t ''id'' \<noteq> opt_chain p ''id'') ts = Some q"
    by (cases "find (\<lambda>t. opt_chain t ''id'' \<noteq> opt_chain p ''id'') ts")
       (auto simp: find_None_iff)
  have q: "q \<in> set ts" "opt_chain q ''id'' \<noteq> opt_chain p ''id''"
    using fq by (auto simp: find_Some_iff)
  have "\<forall>t\<in>set ts. team_has_user (user_id user) t = Some (contains_user (user_id user) t)"
    using assms(4,6) by (simp add: team_has_user_team)
  then have pl: "call_find (team_has_user (user_id user)) (opt_chain data ''teams'') = Some p"
    using js_find_total [of ts "team_has_user (user_id user)" "contains_user (user_id user)"]
      fp assms(2)
    by simp
  have "\<forall>t\<in>set ts. other_team p t = Some (opt_chain t ''id'' \<noteq> opt_chain p ''id'')"
    using assms(4) tp by (simp add: other_team_team)
  then have op: "call_find (other_team p) (opt_chain data ''teams'') = Some q"
    using js_find_total [of ts "other_team p" "\<lambda>t. opt_chain t ''id'' \<noteq> opt_chain p ''id''"]
      fq assms(2)
    by simp
  have upd: "updateTeamsData user (opt_chain data ''teams'') (gameState s) =
      Some (assign [(''teams'', opt_chain data ''teams''), (''playerTeam'', p),
                    (''opposingTeam'', q)] (gameState s))"
    by (simp add: updateTeamsData_def pl op)
  have tr: "truthy (opt_chain data ''teams'')"
    using assms(2) by simp
  have hm: "handleMessage user (Parsed data) s =
      Completed (s\<lparr> gameState := assign [(''teams'', opt_chain data ''teams''),
          (''playerTeam'', p), (''opposingTeam'', q)] (gameState s) \<rparr>)"
    using assms(1) tr upd
    by (auto simp: handleMessage_def on_teams_updated_def)
  show ?thesis
    using hm fp p q by (simp add: assign_def obj_get_update)
qed

theorem teams_updated_resolves_teams_witness:
  "2 \<le> length [team_json team_tigers, team_json team_lions]
   \<and> list_all is_team [team_json team_tigers, team_json team_lions]
   \<and> distinct (map (\<lambda>t. opt_chain t ''id'') [team_json team_tigers, team_json team_lions])
   \<and> contains_user (JNum 7) (team_json team_lions)
   \<and> (\<exists>s' p q. handleMessage sample_user
                  (Parsed (ev_teams [team_tigers, team_lions])) init_view = Completed s'
           \<and> obj_get (gameState s') ''playerTeam'' = p
           \<and> find (contains_user (user_id sample_user))
                [team_json team_tigers, team_json team_lions] = Some p
           \<and> p \<in> set [team_json team_tigers, team_json team_lions]
           \<and> contains_user (user_id sample_user) p
           \<and> obj_get (gameState s') ''opposingTeam'' = q
           \<and> q \<in> set [team_json team_tigers, team_json team_lions]
           \<and> opt_chain q ''id'' \<noteq> opt_chain p ''id'')"
proof -
  have h1: "get_prop (ev_teams [team_tigers, team_lions]) ''type'' = Some (JStr ''teams_updated'')
      \<or> get_prop (ev_teams [team_tigers, team_lions]) ''type'' = Some (JStr ''team_update'')"
    by (simp add: ev_teams_def payload_def get_prop_def obj_get_def)
  have h2: "opt_chain (ev_teams [team_tigers, team_lions]) ''teams''
      = JArr [team_json team_tigers, team_json team_lions]"
    by (simp add: ev_teams_def payload_def obj_get_def)
  have h3: "2 \<le> length [team_json team_tigers, team_json team_lions]"
    by simp
  have h4: "\<forall>t\<in>set [team_json team_tigers, team_json team_lions]. is_team t"
    by code_simp
  have h5: "distinct (map (\<lambda>t. opt_chain t ''id'') [team_json team_tigers, team_json team_lions])"
    by code_simp
  have h6: "scalar (user_id sample_user)"
    by code_simp
  have c: "contains_user (JNum 7) (team_json team_lions)"
    by code_simp
  have u: "user_id sample_user = JNum 7"
    by (simp add: sample_user_def)
  have h7: "\<exists>t\<in>set [team_json team_tigers, team_json team_lions].
              contains_user (user_id sample_user) t"
    using c u by simp
  have l: "list_all is_team [team_json team_tigers, team_json team_lions]"
    using h4 by (simp add: list_all_iff)
  show ?thesis
    using h3 l h5 c teams_updated_resolves_teams [OF h1 h2 h3 h4 h5 h6 h7, of init_view]
    by (intro conjI) assumption+
qed

text \<open>
  C8.  \<^verbatim>\<open>handleCaptainSubmit\<close> sends something only when the \<^verbatim>\<open>captainId\<close> of the player
  team is the current user's id and a current question and a player team are there, and what
  it sends is a \<^verbatim>\<open>finalize_team_answer\<close> event.  When the user is not the captain nothing
  is sent.  The handler never changes the view.
\<close>

theorem captain_submit_guard:
  "(fst (handleCaptainSubmit user answerId s) \<noteq> [] \<longrightarrow>
      opt_chain (obj_get (gameState s) ''playerTeam'') ''captainId'' = user_id user
      \<and> truthy (obj_get (gameState s) ''currentQuestion'')
      \<and> truthy (obj_get (gameState s) ''playerTeam''))
   \<and> (\<forall>e \<in> set (fst (handleCaptainSubmit user answerId s)).
        opt_chain e ''type'' = JStr ''finalize_team_answer'')
   \<and> (opt_chain (obj_get (gameState s) ''playerTeam'') ''captainId'' \<noteq> user_id user \<longrightarrow>
        handleCaptainSubmit user answerId s = ([], s))
   \<and> snd (handleCaptainSubmit user answerId s) = s"
proof -
  have "handleCaptainSubmit user answerId s = ([], s)
      \<or> (\<exists>t q. handleCaptainSubmit user answerId s =
           ([JObj [(''type'', JStr ''finalize_team_answer''), (''teamId'', t),
                   (''finalAnswer'', q)]], s)
          \<and> isTeamCaptain user s
          \<and> truthy (obj_get (gameState s) ''currentQuestion'')
          \<and> truthy (obj_get (gameState s) ''playerTeam''))"
    by (simp add: handleCaptainSubmit_def)
  then consider (silent) "handleCaptainSubmit user answerId s = ([], s)"
    | (sent) t q where
        "handleCaptainSubmit user answerId s =
           ([JObj [(''type'', JStr ''finalize_team_answer''), (''teamId'', t),
                   (''finalAnswer'', q)]], s)"
        "isTeamCaptain user s"
        "truthy (obj_get (gameState s) ''currentQuestion'')"
        "truthy (obj_get (gameState s) ''playerTeam'')"
    by blast
  then show ?thesis
  proof cases
    case silent
    then show ?thesis by simp
  next
    case sent
    have "opt_chain (obj_get (gameState s) ''playerTeam'') ''captainId'' = user_id user"
      using sent(2) by (simp add: isTeamCaptain_def strict_eq_def)
    moreover have "opt_chain (JObj [(''type'', JStr ''finalize_team_answer''), (''teamId'', t),
                   (''finalAnswer'', q)]) ''type'' = JStr ''finalize_team_answer''"
      by (simp add: obj_get_def)
    ultimately show ?thesis
      using sent(1,3,4) by simp
  qed
qed

theorem captain_submit_guard_witness:
  "handleCaptainSubmit sample_user ''a2'' view_playing =
     ([JObj [(''type'', JStr ''finalize_team_answer''),
             (''teamId'', JStr ''t1''),
             (''finalAnswer'', JObj [(''questionId'', JStr ''q1''), (''answerId'', JStr ''a2'')])]],
      view_playing)
   \<and> opt_chain (obj_get (gameState view_playing) ''playerTeam'') ''captainId''
       = user_id sample_user
   \<and> opt_chain (obj_get (gameState view_playing) ''playerTeam'') ''captainId''
       \<noteq> user_id (sample_user\<lparr> user_id := JNum 8 \<rparr>)
   \<and> handleCaptainSubmit (sample_user\<lparr> user_id := JNum 8 \<rparr>) ''a2'' view_playing
       = ([], view_playing)"
proof -
  have e: "handleCaptainSubmit sample_user ''a2'' view_playing =
     ([JObj [(''type'', JStr ''finalize_team_answer''),
             (''teamId'', JStr ''t1''),
             (''finalAnswer'', JObj [(''questionId'', JStr ''q1''), (''answerId'', JStr ''a2'')])]],
      view_playing)"
    by code_simp
  have n: "opt_chain (obj_get (gameState view_playing) ''playerTeam'') ''captainId''
       \<noteq> user_id (sample_user\<lparr> user_id := JNum 8 \<rparr>)"
    by code_simp
  have ne: "fst (handleCaptainSubmit sample_user ''a2'' view_playing) \<noteq> []"
    unfolding e by simp
  have c: "opt_chain (obj_get (gameState view_playing) ''playerTeam'') ''captainId''
       = user_id sample_user"
    using captain_submit_guard [of sample_user "''a2''" view_playing] ne by blast
  have d: "handleCaptainSubmit (sample_user\<lparr> user_id := JNum 8 \<rparr>) ''a2'' view_playing
       = ([], view_playing)"
    using captain_submit_guard [of "sample_user\<lparr> user_id := JNum 8 \<rparr>" "''a2''" view_playing] n
    by blast
  show ?thesis
    using e c n d by blast
qed







section \<open>Properties of TeamDisplay\<close>

text \<open>
  C9.  Whatever the props, the Ready button is rendered only when the viewer is the captain
  of the displayed team (\<open>currentUserId\<close> is \<open>team.captainId\<close>) and the team is the
  viewer's own (\<open>isUserTeam\<close>); otherwise it is left out.  Leaving the title out changes
  the rendering in the title line only.
\<close>

theorem TeamDisplay_ready_only_for_own_captain:
  "(ready_button (TeamDisplay p) \<longrightarrow>
      currentUserId p = Some (captainId (team p)) \<and> isUserTeam p = Some True)
   \<and> TeamDisplay (p\<lparr>title := None\<rparr>) = (TeamDisplay p)\<lparr>title_line := None\<rparr>"
  by (auto simp: TeamDisplay_def canReady_def isCaptain_def split: option.splits if_splits)

theorem TeamDisplay_ready_only_for_own_captain_witness:
  "ready_button (TeamDisplay
      \<lparr> team = \<lparr> team_id = ''t1'', team_name = ''Lions'', captainId = 7,
                 members = [\<lparr> member_userId = 7, member_username = ''bob'', member_role = Captain \<rparr>] \<rparr>,
        currentUserId = Some 7, onReady = True, title = Some ''Your team'',
        isUserTeam = Some True, isReady = None \<rparr>)
   \<and> title_line (TeamDisplay
      \<lparr> team = \<lparr> team_id = ''t1'', team_name = ''Lions'', captainId = 7,
                 members = [\<lparr> member_userId = 7, member_username = ''bob'', member_role = Captain \<rparr>] \<rparr>,
        currentUserId = Some 7, onReady = True, title = None,
        isUserTeam = Some True, isReady = None \<rparr>) = None"
  using TeamDisplay_ready_only_for_own_captain
    [of "\<lparr> team = \<lparr> team_id = ''t1'', team_name = ''Lions'', captainId = 7,
                 members = [\<lparr> member_userId = 7, member_username = ''bob'', member_role = Captain \<rparr>] \<rparr>,
        currentUserId = Some 7, onReady = True, title = Some ''Your team'',
        isUserTeam = Some True, isReady = None \<rparr>"]
  by (simp add: TeamDisplay_def canReady_def isCaptain_def)

end
